theory Spec2Isabelle
  imports Complex_Main
begin

section \<open>Mero AI personality matcher: the matching core of \<open>mcp_starter.py\<close>\<close>

text \<open>
  The server keeps two module-level variables, \<open>user_profiles_memory\<close> (a list of
  profile dictionaries) and \<open>USER_ID_COUNTER\<close>. The tool \<open>mero_ai\<close> asks the analyzer
  for a profile, stores it under a fresh id, scans the store for the most similar other
  profile with \<open>custom_cosine_similarity\<close> and builds the reply.

  Numbers: a Python int is an \<^typ>\<open>int\<close>, a Python float a mathematical
  \<^typ>\<open>real\<close>. Arithmetic on ints is exact and unbounded, as in Python. An int that
  meets a float is converted to a float first, and that conversion raises
  \<open>OverflowError\<close> when the int is beyond the range of a double; the model has this
  exception. What it does not have is the rounding of float arithmetic and the special
  values infinity and NaN, none of which raises an exception in the code modelled.
\<close>

subsection \<open>Values returned by \<open>json.loads\<close>, and Python's exceptions\<close>

text \<open>
  The analyzer returns \<open>json.loads(...)\<close> or \<open>None\<close>, so a profile may be any JSON
  value. A dictionary is an association list in insertion order; a Python dictionary
  holds a key once, and the functions below read and write the first entry of a key.
\<close>

datatype json =
    JNull
  | JBool bool
  | JInt int
  | JFloat real
  | JStr string
  | JArr "json list"
  | JObj "(string \<times> json) list"

datatype py_error = TypeError | KeyError | ValueError | ZeroDivisionError | OverflowError

text \<open>Truth value of an object, as \<open>not x\<close> and \<open>if x\<close> test it.\<close>

fun truthy :: "json \<Rightarrow> bool" where
  "truthy JNull = False"
| "truthy (JBool b) = b"
| "truthy (JInt i) = (i \<noteq> 0)"
| "truthy (JFloat r) = (r \<noteq> 0)"
| "truthy (JStr s) = (s \<noteq> [])"
| "truthy (JArr xs) = (xs \<noteq> [])"
| "truthy (JObj kvs) = (kvs \<noteq> [])"

text \<open>
  The operand of an arithmetic operator as a number: an int or a float. \<open>bool\<close> is a
  subclass of \<open>int\<close> in Python: \<open>True\<close> counts as 1 and \<open>False\<close> as 0.
\<close>

datatype number = PyInt int | PyFloat real

fun as_number :: "json \<Rightarrow> number option" where
  "as_number (JInt i) = Some (PyInt i)"
| "as_number (JFloat r) = Some (PyFloat r)"
| "as_number (JBool b) = Some (PyInt (if b then 1 else 0))"
| "as_number _ = None"

text \<open>
  The conversion of an int to a float rounds to the nearest double and raises
  \<open>OverflowError\<close> (int too large to convert to float) when that is beyond the largest
  double, \<open>2^1024 - 2^971\<close>: from \<open>2^1024 - 2^970\<close> on, in absolute value.
\<close>

definition float_limit :: int where
  "float_limit = 2 ^ 1024 - 2 ^ 970"

fun to_float :: "number \<Rightarrow> py_error + real" where
  "to_float (PyFloat r) = Inr r"
| "to_float (PyInt i) = (if \<bar>i\<bar> < float_limit then Inr (of_int i) else Inl OverflowError)"

text \<open>
  \<open>a * b\<close> and \<open>a + b\<close> on numbers: two ints give an int, exactly; otherwise both
  operands become floats.
\<close>

fun num_mul :: "number \<Rightarrow> number \<Rightarrow> py_error + number" where
  "num_mul (PyInt i) (PyInt j) = Inr (PyInt (i * j))"
| "num_mul a b =
     (case to_float a of Inl e \<Rightarrow> Inl e | Inr x \<Rightarrow>
     (case to_float b of Inl e \<Rightarrow> Inl e | Inr y \<Rightarrow> Inr (PyFloat (x * y))))"

fun num_add :: "number \<Rightarrow> number \<Rightarrow> py_error + number" where
  "num_add (PyInt i) (PyInt j) = Inr (PyInt (i + j))"
| "num_add a b =
     (case to_float a of Inl e \<Rightarrow> Inl e | Inr x \<Rightarrow>
     (case to_float b of Inl e \<Rightarrow> Inl e | Inr y \<Rightarrow> Inr (PyFloat (x + y))))"

text \<open>
  \<open>p * q\<close> as a summand of \<open>sum\<close>. Two numbers give their product. Every other pair
  of operands makes the generator raise: either \<open>*\<close> itself raises \<open>TypeError\<close>, or it
  repeats a sequence (\<open>str * int\<close>, \<open>list * int\<close>) and the addition \<open>0 + ...\<close> inside
  \<open>sum\<close> raises \<open>TypeError\<close>. (A repetition too long to build raises \<open>MemoryError\<close> or
  \<open>OverflowError\<close> instead; the model records an exception there all the same, under the
  name \<open>TypeError\<close>.)
\<close>

definition py_mul :: "json \<Rightarrow> json \<Rightarrow> py_error + number" where
  "py_mul p q =
     (case as_number p of
        None \<Rightarrow> Inl TypeError
      | Some a \<Rightarrow> (case as_number q of None \<Rightarrow> Inl TypeError | Some b \<Rightarrow> num_mul a b))"

text \<open>
  \<open>iter(x)\<close>: a list yields its elements, a string its characters, a dictionary its
  keys; anything else is not iterable.
\<close>

fun py_iter :: "json \<Rightarrow> py_error + json list" where
  "py_iter (JArr xs) = Inr xs"
| "py_iter (JStr s) = Inr (map (\<lambda>c. JStr [c]) s)"
| "py_iter (JObj kvs) = Inr (map (\<lambda>kv. JStr (fst kv)) kvs)"
| "py_iter _ = Inl TypeError"

text \<open>\<open>x[key]\<close> with a string key: only a dictionary accepts it.\<close>

fun subscript :: "json \<Rightarrow> string \<Rightarrow> py_error + json" where
  "subscript (JObj kvs) k = (case map_of kvs k of None \<Rightarrow> Inl KeyError | Some v \<Rightarrow> Inr v)"
| "subscript _ k = Inl TypeError"

text \<open>
  \<open>x[key] = v\<close>: an existing key keeps its place, a new key goes to the end; only a
  dictionary supports the assignment.
\<close>

fun update_key :: "string \<Rightarrow> json \<Rightarrow> (string \<times> json) list \<Rightarrow> (string \<times> json) list" where
  "update_key k v [] = [(k, v)]"
| "update_key k v (kv # kvs) = (if fst kv = k then (k, v) # kvs else kv # update_key k v kvs)"

fun set_item :: "json \<Rightarrow> string \<Rightarrow> json \<Rightarrow> py_error + json" where
  "set_item (JObj kvs) k v = Inr (JObj (update_key k v kvs))"
| "set_item _ k v = Inl TypeError"

text \<open>
  \<open>math.sqrt(x)\<close> converts its argument to a float, which may raise \<open>OverflowError\<close>,
  and raises \<open>ValueError\<close> below zero. \<open>a / b\<close> with a float divisor converts the
  dividend and then raises \<open>ZeroDivisionError\<close> on a zero divisor.
\<close>

definition math_sqrt :: "number \<Rightarrow> py_error + real" where
  "math_sqrt n =
     (case to_float n of
        Inl e \<Rightarrow> Inl e
      | Inr x \<Rightarrow> if x < 0 then Inl ValueError else Inr (sqrt x))"

definition py_div :: "number \<Rightarrow> real \<Rightarrow> py_error + real" where
  "py_div a b =
     (case to_float a of
        Inl e \<Rightarrow> Inl e
      | Inr x \<Rightarrow> if b = 0 then Inl ZeroDivisionError else Inr (x / b))"

subsection \<open>\<open>custom_cosine_similarity\<close>\<close>

text \<open>
  \<open>sum(p * q for p, q in pairs)\<close>: the accumulator starts at the int 0 and the generator
  is consumed from the left; the first product or addition that raises ends the sum.
\<close>

fun sum_products :: "number \<Rightarrow> (json \<times> json) list \<Rightarrow> py_error + number" where
  "sum_products acc [] = Inr acc"
| "sum_products acc (pq # rest) =
     (case py_mul (fst pq) (snd pq) of
        Inl e \<Rightarrow> Inl e
      | Inr x \<Rightarrow>
          (case num_add acc x of
             Inl e \<Rightarrow> Inl e
           | Inr acc' \<Rightarrow> sum_products acc' rest))"

text \<open>
  \<^verbatim>\<open>
  def custom_cosine_similarity(vec1, vec2):
      dot_product = sum(p * q for p, q in zip(vec1, vec2))
      magnitude1 = math.sqrt(sum(p * p for p in vec1))
      magnitude2 = math.sqrt(sum(q * q for q in vec2))
      if not magnitude1 or not magnitude2:
          return 0.0
      return dot_product / (magnitude1 * magnitude2)
  \<close>
  \<open>zip\<close> stops at the shorter argument; there is no comparison of the two lengths. Both
  magnitudes are computed before the test for zero.
\<close>

definition squares :: "json list \<Rightarrow> (json \<times> json) list" where
  "squares xs = map (\<lambda>p. (p, p)) xs"

definition custom_cosine_similarity :: "json \<Rightarrow> json \<Rightarrow> py_error + real" where
  "custom_cosine_similarity vec1 vec2 =
     (case py_iter vec1 of Inl e \<Rightarrow> Inl e | Inr xs \<Rightarrow>
     (case py_iter vec2 of Inl e \<Rightarrow> Inl e | Inr ys \<Rightarrow>
     (case sum_products (PyInt 0) (zip xs ys) of Inl e \<Rightarrow> Inl e | Inr dot_product \<Rightarrow>
     (case sum_products (PyInt 0) (squares xs) of Inl e \<Rightarrow> Inl e | Inr s1 \<Rightarrow>
     (case math_sqrt s1 of Inl e \<Rightarrow> Inl e | Inr magnitude1 \<Rightarrow>
     (case sum_products (PyInt 0) (squares ys) of Inl e \<Rightarrow> Inl e | Inr s2 \<Rightarrow>
     (case math_sqrt s2 of Inl e \<Rightarrow> Inl e | Inr magnitude2 \<Rightarrow>
        if magnitude1 = 0 \<or> magnitude2 = 0 then Inr 0
        else py_div dot_product (magnitude1 * magnitude2))))))))"

text \<open>A vector of floats as the analyzer is asked to produce it.\<close>

definition vec :: "real list \<Rightarrow> json" where
  "vec xs = JArr (map JFloat xs)"

subsection \<open>The tool \<open>mero_ai\<close>\<close>

text \<open>The two module-level variables; the process starts with an empty list and 0.\<close>

record state =
  user_profiles_memory :: "json list"
  USER_ID_COUNTER :: int

definition initial_state :: state where
  "initial_state = \<lparr>user_profiles_memory = [], USER_ID_COUNTER = 0\<rparr>"

text \<open>
  The reply of \<open>mero_ai\<close> is a fixed text around the values computed. \<open>Apology\<close> is
  the sentence returned when the analysis gave nothing; \<open>FirstUser\<close> carries
  \<open>interests_output\<close>; \<open>ConnectionFound\<close> carries \<open>interests_output\<close>,
  \<open>best_match['id']\<close> and \<open>similarity_percent\<close>.
\<close>

datatype reply =
    Apology
  | FirstUser string
  | ConnectionFound string json int

text \<open>
  The value of a number. \<open>other_profile['id'] != new_user_id\<close> compares by value, an
  int with a float too; a value that is no number differs from an int.
\<close>

fun num_real :: "number \<Rightarrow> real" where
  "num_real (PyInt i) = of_int i"
| "num_real (PyFloat r) = r"

definition differs_from_int :: "json \<Rightarrow> int \<Rightarrow> bool" where
  "differs_from_int v n =
     (case as_number v of None \<Rightarrow> True | Some a \<Rightarrow> num_real a \<noteq> of_int n)"

text \<open>
  The argument expression of line 85,
  \<open>custom_cosine_similarity(profile['personality_vector'], other_profile['personality_vector'])\<close>,
  evaluated from left to right.
\<close>

definition similarity_to :: "json \<Rightarrow> json \<Rightarrow> py_error + real" where
  "similarity_to profile other_profile =
     (case subscript profile ''personality_vector'' of Inl e \<Rightarrow> Inl e | Inr v1 \<Rightarrow>
     (case subscript other_profile ''personality_vector'' of Inl e \<Rightarrow> Inl e | Inr v2 \<Rightarrow>
        custom_cosine_similarity v1 v2))"

text \<open>
  \<^verbatim>\<open>
  for other_profile in user_profiles_memory:
      if other_profile['id'] != new_user_id:
          similarity = custom_cosine_similarity(...)
          if similarity > highest_similarity:
              highest_similarity = similarity
              best_match = other_profile
  \<close>
  The loop, with the pair \<open>(best_match, highest_similarity)\<close> as its state.
\<close>

fun match_loop :: "json \<Rightarrow> int \<Rightarrow> json list \<Rightarrow> json option \<times> real
    \<Rightarrow> py_error + (json option \<times> real)" where
  "match_loop profile new_user_id [] acc = Inr acc"
| "match_loop profile new_user_id (other_profile # rest) acc =
     (case subscript other_profile ''id'' of
        Inl e \<Rightarrow> Inl e
      | Inr other_id \<Rightarrow>
          if differs_from_int other_id new_user_id then
            (case similarity_to profile other_profile of
               Inl e \<Rightarrow> Inl e
             | Inr similarity \<Rightarrow>
                 if similarity > snd acc
                 then match_loop profile new_user_id rest (Some other_profile, similarity)
                 else match_loop profile new_user_id rest acc)
          else match_loop profile new_user_id rest acc)"

text \<open>
  Lines 79 to 88: \<open>best_match = None\<close>, \<open>highest_similarity = -1\<close>, and the loop
  only when the store holds more than the new profile.
\<close>

definition find_best_match :: "json \<Rightarrow> int \<Rightarrow> json list \<Rightarrow> py_error + (json option \<times> real)" where
  "find_best_match profile new_user_id memory =
     (if length memory > 1 then match_loop profile new_user_id memory (None, - 1)
      else Inr (None, - 1))"

text \<open>\<open>", ".join(xs)\<close>: every item must be a string.\<close>

fun str_items :: "json list \<Rightarrow> py_error + string list" where
  "str_items [] = Inr []"
| "str_items (JStr s # rest) = (case str_items rest of Inl e \<Rightarrow> Inl e | Inr ss \<Rightarrow> Inr (s # ss))"
| "str_items (x # rest) = Inl TypeError"

fun intercalate :: "string \<Rightarrow> string list \<Rightarrow> string" where
  "intercalate sep [] = []"
| "intercalate sep [s] = s"
| "intercalate sep (s # t # rest) = s @ sep @ intercalate sep (t # rest)"

definition join :: "string \<Rightarrow> json \<Rightarrow> py_error + string" where
  "join sep v =
     (case py_iter v of Inl e \<Rightarrow> Inl e | Inr items \<Rightarrow>
     (case str_items items of Inl e \<Rightarrow> Inl e | Inr ss \<Rightarrow> Inr (intercalate sep ss)))"

text \<open>\<open>round(x)\<close> on a float: to the nearest int, a tie to the even one.\<close>

definition py_round :: "real \<Rightarrow> int" where
  "py_round x =
     (let f = \<lfloor>x\<rfloor>; d = x - of_int f
      in if d < 1 / 2 then f else if 1 / 2 < d then f + 1 else if even f then f else f + 1)"

text \<open>The reply built from line 91 on, once the store has been scanned.\<close>

definition respond :: "json \<Rightarrow> json option \<Rightarrow> real \<Rightarrow> py_error + reply" where
  "respond profile best_match highest_similarity =
     (case subscript profile ''interests'' of Inl e \<Rightarrow> Inl e | Inr interests \<Rightarrow>
     (case join '', '' interests of Inl e \<Rightarrow> Inl e | Inr interests_output \<Rightarrow>
     (case best_match of
        None \<Rightarrow> Inr (FirstUser interests_output)
      | Some b \<Rightarrow>
          if truthy b then
            (case subscript b ''id'' of
               Inl e \<Rightarrow> Inl e
             | Inr best_id \<Rightarrow>
                 Inr (ConnectionFound interests_output best_id (py_round (highest_similarity * 100))))
          else Inr (FirstUser interests_output))))"

text \<open>
  \<open>mero_ai\<close>, given what \<open>analyze_text_with_gemini(user_text)\<close> returned. The result
  pairs the reply, or the exception that leaves the tool, with the module-level variables
  afterwards: an exception does not undo the assignments made before it.
\<close>

definition mero_ai :: "json \<Rightarrow> state \<Rightarrow> (py_error + reply) \<times> state" where
  "mero_ai profile s =
     (if \<not> truthy profile then (Inr Apology, s)
      else
        let new_user_id = USER_ID_COUNTER s + 1;
            s1 = s\<lparr>USER_ID_COUNTER := new_user_id\<rparr>
        in (case set_item profile ''id'' (JInt new_user_id) of
              Inl e \<Rightarrow> (Inl e, s1)
            | Inr profile' \<Rightarrow>
                let s2 = s1\<lparr>user_profiles_memory := user_profiles_memory s1 @ [profile']\<rparr>
                in (case find_best_match profile' new_user_id (user_profiles_memory s2) of
                      Inl e \<Rightarrow> (Inl e, s2)
                    | Inr (best_match, highest_similarity) \<Rightarrow>
                        (respond profile' best_match highest_similarity, s2))))"

text \<open>
  One process lifetime: the tool called once for each analyzer result, in order, from the
  initial state; a call that raises leaves the variables as they were when it raised.
\<close>

fun run :: "json list \<Rightarrow> state \<Rightarrow> state" where
  "run [] s = s"
| "run (profile # rest) s = run rest (snd (mero_ai profile s))"

subsection \<open>Notions used to state the properties\<close>

text \<open>
  A numeric element is one that \<open>*\<close> accepts as a number; \<open>num_val\<close> is its value.
  \<open>dot\<close> is the sum over the zipped pairs and \<open>magnitude\<close> the Euclidean norm, as lines
  21 to 23 compute them on lists of numbers.
\<close>

definition numeric :: "json \<Rightarrow> bool" where
  "numeric x = (case as_number x of None \<Rightarrow> False | Some r \<Rightarrow> True)"

definition num_val :: "json \<Rightarrow> real" where
  "num_val x = (case as_number x of None \<Rightarrow> 0 | Some a \<Rightarrow> num_real a)"

definition dot :: "json list \<Rightarrow> json list \<Rightarrow> real" where
  "dot xs ys = sum_list (map (\<lambda>pq. num_val (fst pq) * num_val (snd pq)) (zip xs ys))"

definition magnitude :: "json list \<Rightarrow> real" where
  "magnitude xs = sqrt (dot xs xs)"

text \<open>
  The ints of a list are small when twice the sum of their squares stays below the
  limit of the conversion to float. Then no int that \<open>custom_cosine_similarity\<close> builds
  from this list and another such list is too large to convert. \<open>weight\<close> bounds the
  ints that one pair of operands makes the sum convert, \<open>mass\<close> those of a list of
  pairs; an accumulator \<open>fits\<close> a mass when the sum over pairs of that mass converts
  nothing too large. \<open>pair_sum\<close> is the value of the sum over a list of pairs of
  numbers.
\<close>

definition int_square :: "json \<Rightarrow> int" where
  "int_square x = (case as_number x of Some (PyInt i) \<Rightarrow> i * i | _ \<Rightarrow> 0)"

definition int_squares :: "json list \<Rightarrow> int" where
  "int_squares xs = sum_list (map int_square xs)"

definition small_ints :: "json list \<Rightarrow> bool" where
  "small_ints xs = (2 * int_squares xs < float_limit)"

fun num_weight :: "number \<Rightarrow> number \<Rightarrow> int" where
  "num_weight (PyInt i) (PyInt j) = \<bar>i * j\<bar>"
| "num_weight (PyInt i) (PyFloat r) = \<bar>i\<bar>"
| "num_weight (PyFloat r) (PyInt j) = \<bar>j\<bar>"
| "num_weight (PyFloat r) (PyFloat t) = 0"

definition weight :: "json \<times> json \<Rightarrow> int" where
  "weight pq =
     (case as_number (fst pq) of
        None \<Rightarrow> 0
      | Some a \<Rightarrow> (case as_number (snd pq) of None \<Rightarrow> 0 | Some b \<Rightarrow> num_weight a b))"

definition mass :: "(json \<times> json) list \<Rightarrow> int" where
  "mass pairs = sum_list (map weight pairs)"

definition numeric_pairs :: "(json \<times> json) list \<Rightarrow> bool" where
  "numeric_pairs pairs = list_all (\<lambda>pq. numeric (fst pq) \<and> numeric (snd pq)) pairs"

definition pair_sum :: "(json \<times> json) list \<Rightarrow> real" where
  "pair_sum pairs = sum_list (map (\<lambda>pq. num_val (fst pq) * num_val (snd pq)) pairs)"

definition fits :: "number \<Rightarrow> int \<Rightarrow> bool" where
  "fits acc m = (case acc of PyInt a \<Rightarrow> \<bar>a\<bar> + m < float_limit | PyFloat r \<Rightarrow> m < float_limit)"

text \<open>
  A candidate of the scan is a stored profile that passes the test
  \<open>other_profile['id'] != new_user_id\<close>. \<open>visit\<close> is what the loop body computes for
  one stored profile before the comparison: nothing for a profile that is skipped, the
  similarity for a candidate, or the exception raised.
\<close>

definition is_candidate :: "int \<Rightarrow> json \<Rightarrow> bool" where
  "is_candidate new_user_id other_profile =
     (case subscript other_profile ''id'' of
        Inl e \<Rightarrow> False
      | Inr other_id \<Rightarrow> differs_from_int other_id new_user_id)"

definition visit :: "json \<Rightarrow> int \<Rightarrow> json \<Rightarrow> py_error + real option" where
  "visit profile new_user_id other_profile =
     (case subscript other_profile ''id'' of
        Inl e \<Rightarrow> Inl e
      | Inr other_id \<Rightarrow>
          if differs_from_int other_id new_user_id
          then (case similarity_to profile other_profile of
                  Inl e \<Rightarrow> Inl e
                | Inr similarity \<Rightarrow> Inr (Some similarity))
          else Inr None)"

text \<open>
  The shape the analyzer is asked for: a dictionary with a list of numbers under
  \<open>personality_vector\<close> and a list of strings under \<open>interests\<close>. Neither the length of
  the vector nor the range of its floats is part of it; its ints are small.
\<close>

fun is_dict :: "json \<Rightarrow> bool" where
  "is_dict (JObj kvs) = True"
| "is_dict _ = False"






definition has_id :: "json \<Rightarrow> bool" where
  "has_id p = (case subscript p ''id'' of Inl e \<Rightarrow> False | Inr v \<Rightarrow> True)"

text \<open>What \<open>p['id']\<close> gives for each stored profile, in store order.\<close>

definition stored_ids :: "state \<Rightarrow> (py_error + json) list" where
  "stored_ids s = map (\<lambda>p. subscript p ''id'') (user_profiles_memory s)"

definition int_ids :: "int list \<Rightarrow> (py_error + json) list" where
  "int_ids ns = map (\<lambda>n. Inr (JInt n)) ns"

text \<open>
  An analyzer result of the shape asked for, and the same profile as the store holds it
  once \<open>profile['id']\<close> has been assigned.
\<close>

definition analysis :: "json list \<Rightarrow> string list \<Rightarrow> json" where
  "analysis v interests =
     JObj [(''personality_vector'', JArr v), (''interests'', JArr (map JStr interests))]"

definition stored :: "json list \<Rightarrow> string list \<Rightarrow> int \<Rightarrow> json" where
  "stored v interests n =
     JObj [(''personality_vector'', JArr v), (''interests'', JArr (map JStr interests)),
           (''id'', JInt n)]"

text \<open>
  Two invariants of the module-level variables: the stored ids are ints that increase
  strictly along the store and lie between 1 and the counter; and, stronger, they are
  exactly 1 up to the counter.
\<close>

definition ids_ok :: "state \<Rightarrow> bool" where
  "ids_ok s =
     (0 \<le> USER_ID_COUNTER s \<and>
      (\<exists>ns. stored_ids s = int_ids ns \<and> sorted_wrt (<) ns \<and>
            list_all (\<lambda>n. 1 \<le> n \<and> n \<le> USER_ID_COUNTER s) ns))"

definition ids_dense :: "state \<Rightarrow> bool" where
  "ids_dense s = (0 \<le> USER_ID_COUNTER s \<and> stored_ids s = int_ids [1..USER_ID_COUNTER s])"

section \<open>Properties\<close>

subsection \<open>Arithmetic on ints and floats\<close>

lemma numericD: "numeric x \<Longrightarrow> \<exists>a. as_number x = Some a"
  by (cases "as_number x") (simp_all add: numeric_def)

lemma num_val_Some: "as_number x = Some a \<Longrightarrow> num_val x = num_real a"
  by (simp add: num_val_def)

lemma float_limit_pos: "0 < float_limit"
  by (simp add: float_limit_def)

lemma to_float_cases: "to_float a = Inr (num_real a) \<or> to_float a = Inl OverflowError"
  by (cases a) simp_all

lemma num_mul_cases:
  "num_mul a b = Inl OverflowError \<or> (\<exists>n. num_mul a b = Inr n \<and> num_real n = num_real a * num_real b)"
  using to_float_cases [of a] to_float_cases [of b]
  by (cases a; cases b) auto

lemma num_add_cases:
  "num_add a b = Inl OverflowError \<or> (\<exists>n. num_add a b = Inr n \<and> num_real n = num_real a + num_real b)"
  using to_float_cases [of a] to_float_cases [of b]
  by (cases a; cases b) auto

lemma num_mul_commute: "num_mul a b = num_mul b a"
  by (cases a; cases b) (auto simp: mult.commute)

lemma py_mul_commute: "py_mul p q = py_mul q p"
  by (auto simp: py_mul_def num_mul_commute split: option.splits)

lemma py_mul_cases:
  "numeric p \<Longrightarrow> numeric q \<Longrightarrow>
   py_mul p q = Inl OverflowError \<or> (\<exists>n. py_mul p q = Inr n \<and> num_real n = num_val p * num_val q)"
proof -
  assume "numeric p" "numeric q"
  then obtain a b where ab: "as_number p = Some a" "as_number q = Some b"
    using numericD by blast
  with num_mul_cases [of a b] show ?thesis
    by (auto simp: py_mul_def num_val_def)
qed

lemma numeric_pairs_zip: "list_all numeric xs \<Longrightarrow> list_all numeric ys \<Longrightarrow> numeric_pairs (zip xs ys)"
  unfolding numeric_pairs_def list_all_iff by (auto dest: set_zip_leftD set_zip_rightD)

lemma numeric_pairs_squares: "list_all numeric xs \<Longrightarrow> numeric_pairs (squares xs)"
  unfolding numeric_pairs_def squares_def list_all_iff by auto

lemma pair_sum_zip: "pair_sum (zip xs ys) = dot xs ys"
  by (simp add: pair_sum_def dot_def)

lemma zip_self: "zip xs xs = map (\<lambda>p. (p, p)) xs"
  by (induction xs) auto

lemma pair_sum_squares: "pair_sum (squares xs) = dot xs xs"
  by (simp add: pair_sum_def dot_def squares_def zip_self)

lemma sum_products_cases:
  "numeric_pairs pairs \<Longrightarrow>
   sum_products acc pairs = Inl OverflowError \<or>
   (\<exists>n. sum_products acc pairs = Inr n \<and> num_real n = num_real acc + pair_sum pairs)"
proof (induction pairs arbitrary: acc)
  case Nil
  then show ?case by (simp add: pair_sum_def)
next
  case (Cons pq pairs)
  then have np: "numeric (fst pq)" "numeric (snd pq)" and rest: "numeric_pairs pairs"
    by (simp_all add: numeric_pairs_def)
  from py_mul_cases [OF np] show ?case
  proof
    assume "py_mul (fst pq) (snd pq) = Inl OverflowError"
    then show ?thesis by simp
  next
    assume "\<exists>n. py_mul (fst pq) (snd pq) = Inr n \<and> num_real n = num_val (fst pq) * num_val (snd pq)"
    then obtain x where x: "py_mul (fst pq) (snd pq) = Inr x"
        "num_real x = num_val (fst pq) * num_val (snd pq)" by blast
    from num_add_cases [of acc x] show ?thesis
    proof
      assume "num_add acc x = Inl OverflowError"
      with x show ?thesis by simp
    next
      assume "\<exists>n. num_add acc x = Inr n \<and> num_real n = num_real acc + num_real x"
      then obtain acc' where a: "num_add acc x = Inr acc'" "num_real acc' = num_real acc + num_real x"
        by blast
      from Cons.IH [OF rest, of acc'] x a show ?thesis
        by (auto simp: pair_sum_def)
    qed
  qed
qed

lemma sum_products_zip_commute:
  "sum_products acc (zip xs ys) = sum_products acc (zip ys xs)"
proof (induction xs arbitrary: ys acc)
  case Nil
  then show ?case by simp
next
  case (Cons x xs)
  show ?case
  proof (cases ys)
    case Nil
    then show ?thesis by simp
  next
    case (Cons y ys')
    with Cons.IH show ?thesis
      by (simp add: py_mul_commute [of x y] split: sum.splits)
  qed
qed

lemma dot_self_nonneg: "0 \<le> dot xs xs"
  by (induction xs) (simp_all add: dot_def)

lemma dot_commute: "dot xs ys = dot ys xs"
proof -
  have "zip ys xs = map (\<lambda>pq. (snd pq, fst pq)) (zip xs ys)"
    by (induction xs arbitrary: ys) (auto simp: zip_Cons1 zip_Cons split: list.splits)
  then show ?thesis
    by (simp add: dot_def comp_def mult.commute)
qed


lemma magnitude_cases:
  assumes "list_all numeric xs"
  shows "(sum_products (PyInt 0) (squares xs) = Inl OverflowError) \<or>
         (\<exists>n. sum_products (PyInt 0) (squares xs) = Inr n \<and>
              (math_sqrt n = Inl OverflowError \<or> math_sqrt n = Inr (magnitude xs)))"
proof -
  from sum_products_cases [OF numeric_pairs_squares [OF assms], of "PyInt 0"] show ?thesis
  proof
    assume "sum_products (PyInt 0) (squares xs) = Inl OverflowError"
    then show ?thesis by simp
  next
    assume "\<exists>n. sum_products (PyInt 0) (squares xs) = Inr n \<and>
       num_real n = num_real (PyInt 0) + pair_sum (squares xs)"
    then obtain n where n: "sum_products (PyInt 0) (squares xs) = Inr n" "num_real n = dot xs xs"
      by (auto simp: pair_sum_squares)
    from to_float_cases [of n] n(2) dot_self_nonneg [of xs]
    have "math_sqrt n = Inl OverflowError \<or> math_sqrt n = Inr (magnitude xs)"
      by (auto simp: math_sqrt_def magnitude_def)
    with n(1) show ?thesis by blast
  qed
qed

subsection \<open>Lists whose ints are small\<close>

lemma weight_nonneg: "0 \<le> weight pq"
proof -
  have "0 \<le> num_weight a b" for a b by (cases a; cases b) simp_all
  then show ?thesis by (simp add: weight_def split: option.splits)
qed

lemma mass_nonneg: "0 \<le> mass pairs"
  unfolding mass_def by (induction pairs) (simp_all add: weight_nonneg)

lemma fits_to_float: "fits n 0 \<Longrightarrow> to_float n = Inr (num_real n)"
  by (cases n) (simp_all add: fits_def)

lemma fits_step:
  assumes "fits acc (num_weight a b + m)" and "0 \<le> m"
  shows "\<exists>x acc'. num_mul a b = Inr x \<and> num_add acc x = Inr acc' \<and> fits acc' m \<and>
           num_real acc' = num_real acc + num_real a * num_real b"
proof (cases a)
  case (PyInt i)
  note a = this
  show ?thesis
  proof (cases b)
    case (PyInt j)
    show ?thesis
    proof (cases acc)
      case (PyInt c)
      have "\<bar>c + i * j\<bar> \<le> \<bar>c\<bar> + \<bar>i * j\<bar>" by (rule abs_triangle_ineq)
      with assms a \<open>b = PyInt j\<close> PyInt show ?thesis by (simp add: fits_def)
    next
      case (PyFloat r)
      with assms a \<open>b = PyInt j\<close> show ?thesis by (simp add: fits_def; arith)
    qed
  next
    case (PyFloat t)
    with assms a show ?thesis by (cases acc; simp add: fits_def; arith)
  qed
next
  case (PyFloat r)
  note a = this
  show ?thesis
  proof (cases b)
    case (PyInt j)
    with assms a show ?thesis by (cases acc; simp add: fits_def; arith)
  next
    case (PyFloat t)
    with assms a show ?thesis by (cases acc; simp add: fits_def)
  qed
qed

lemma sum_products_fits:
  "numeric_pairs pairs \<Longrightarrow> fits acc (mass pairs) \<Longrightarrow>
   \<exists>n. sum_products acc pairs = Inr n \<and> fits n 0 \<and> num_real n = num_real acc + pair_sum pairs"
proof (induction pairs arbitrary: acc)
  case Nil
  then show ?case by (simp add: pair_sum_def mass_def)
next
  case (Cons pq pairs)
  then have np: "numeric (fst pq)" "numeric (snd pq)" and rest: "numeric_pairs pairs"
    by (simp_all add: numeric_pairs_def)
  from np obtain a b where ab: "as_number (fst pq) = Some a" "as_number (snd pq) = Some b"
    using numericD by blast
  have "fits acc (num_weight a b + mass pairs)"
    using Cons.prems(2) ab by (simp add: mass_def weight_def)
  from fits_step [OF this mass_nonneg] obtain x acc' where
    s: "num_mul a b = Inr x" "num_add acc x = Inr acc'" "fits acc' (mass pairs)"
       "num_real acc' = num_real acc + num_real a * num_real b"
    by blast
  from Cons.IH [OF rest s(3)] obtain n where
    n: "sum_products acc' pairs = Inr n" "fits n 0" "num_real n = num_real acc' + pair_sum pairs"
    by blast
  have "sum_products acc (pq # pairs) = Inr n"
    using ab s(1,2) n(1) by (simp add: py_mul_def)
  moreover have "num_real n = num_real acc + pair_sum (pq # pairs)"
    using n(3) s(4) ab by (simp add: pair_sum_def num_val_def)
  ultimately show ?case using n(2) by blast
qed

lemma int_square_nonneg: "0 \<le> int_square x"
  by (simp add: int_square_def split: option.splits number.splits)

lemma int_squares_nonneg: "0 \<le> int_squares xs"
  unfolding int_squares_def by (induction xs) (simp_all add: int_square_nonneg)

lemma abs_le_square: "\<bar>i\<bar> \<le> i * (i::int)"
proof (cases "i = 0")
  case True
  then show ?thesis by simp
next
  case False
  then have "1 \<le> \<bar>i\<bar>" by simp
  then have "\<bar>i\<bar> * 1 \<le> \<bar>i\<bar> * \<bar>i\<bar>" by (intro mult_left_mono) simp_all
  then show ?thesis by (simp add: abs_mult_self_eq)
qed

lemma abs_mult_le_squares: "\<bar>i * j\<bar> \<le> i * i + j * (j::int)"
proof (cases "\<bar>i\<bar> \<le> \<bar>j\<bar>")
  case True
  then have "\<bar>i\<bar> * \<bar>j\<bar> \<le> \<bar>j\<bar> * \<bar>j\<bar>" by (intro mult_right_mono) simp_all
  then have "\<bar>i * j\<bar> \<le> j * j" by (simp add: abs_mult abs_mult_self_eq)
  moreover have "0 \<le> i * i" by simp
  ultimately show ?thesis by linarith
next
  case False
  then have "\<bar>j\<bar> \<le> \<bar>i\<bar>" by simp
  then have "\<bar>i\<bar> * \<bar>j\<bar> \<le> \<bar>i\<bar> * \<bar>i\<bar>" by (intro mult_left_mono) simp_all
  then have "\<bar>i * j\<bar> \<le> i * i" by (simp add: abs_mult abs_mult_self_eq)
  moreover have "0 \<le> j * j" by simp
  ultimately show ?thesis by linarith
qed

lemma weight_le: "weight (x, y) \<le> int_square x + int_square y"
proof (cases "as_number x")
  case None
  then show ?thesis using int_square_nonneg [of y] by (simp add: weight_def int_square_def)
next
  case (Some a)
  note a = this
  show ?thesis
  proof (cases "as_number y")
    case None
    then show ?thesis using a int_square_nonneg [of x] by (simp add: weight_def int_square_def)
  next
    case (Some b)
    show ?thesis
      using a Some abs_mult_le_squares abs_le_square
      by (cases a; cases b) (simp_all add: weight_def int_square_def)
  qed
qed

lemma weight_self: "weight (x, x) = int_square x"
  by (simp add: weight_def int_square_def abs_mult_self_eq split: option.splits number.splits)

lemma mass_squares: "mass (squares xs) = int_squares xs"
  by (induction xs) (simp_all add: mass_def squares_def int_squares_def weight_self)

lemma mass_zip: "mass (zip xs ys) \<le> int_squares xs + int_squares ys"
proof (induction xs arbitrary: ys)
  case Nil
  then show ?case using int_squares_nonneg [of ys] by (simp add: mass_def int_squares_def)
next
  case (Cons x xs)
  show ?case
  proof (cases ys)
    case Nil
    then show ?thesis using int_squares_nonneg [of "x # xs"] by (simp add: mass_def int_squares_def)
  next
    case (Cons y ys')
    with Cons.IH [of ys'] weight_le [of x y] show ?thesis
      by (simp add: mass_def int_squares_def)
  qed
qed

lemma sum_squares_small:
  assumes "list_all numeric xs" and "small_ints xs"
  shows "\<exists>n. sum_products (PyInt 0) (squares xs) = Inr n \<and> math_sqrt n = Inr (magnitude xs)"
proof -
  have "fits (PyInt 0) (mass (squares xs))"
    using assms(2) int_squares_nonneg [of xs] by (simp add: fits_def mass_squares small_ints_def)
  from sum_products_fits [OF numeric_pairs_squares [OF assms(1)] this] obtain n where
    n: "sum_products (PyInt 0) (squares xs) = Inr n" "fits n 0" "num_real n = dot xs xs"
    by (auto simp: pair_sum_squares)
  have "math_sqrt n = Inr (magnitude xs)"
    using fits_to_float [OF n(2)] n(3) dot_self_nonneg [of xs]
    by (simp add: math_sqrt_def magnitude_def)
  with n(1) show ?thesis by blast
qed

lemma dot_small:
  assumes "list_all numeric xs" and "list_all numeric ys" and "small_ints xs" and "small_ints ys"
  shows "\<exists>n. sum_products (PyInt 0) (zip xs ys) = Inr n \<and> to_float n = Inr (dot xs ys)"
proof -
  have "fits (PyInt 0) (mass (zip xs ys))"
    using assms(3,4) mass_zip [of xs ys] by (simp add: fits_def small_ints_def)
  from sum_products_fits [OF numeric_pairs_zip [OF assms(1,2)] this] obtain n where
    n: "sum_products (PyInt 0) (zip xs ys) = Inr n" "fits n 0" "num_real n = dot xs ys"
    by (auto simp: pair_sum_zip)
  with fits_to_float [OF n(2)] show ?thesis by auto
qed

lemma similarity_small:
  assumes "list_all numeric xs" and "list_all numeric ys" and "small_ints xs" and "small_ints ys"
  shows "custom_cosine_similarity (JArr xs) (JArr ys) =
         Inr (if magnitude xs = 0 \<or> magnitude ys = 0 then 0
              else dot xs ys / (magnitude xs * magnitude ys))"
proof -
  from dot_small [OF assms] obtain d where
    d: "sum_products (PyInt 0) (zip xs ys) = Inr d" "to_float d = Inr (dot xs ys)" by blast
  from sum_squares_small [OF assms(1,3)] obtain s1 where
    s1: "sum_products (PyInt 0) (squares xs) = Inr s1" "math_sqrt s1 = Inr (magnitude xs)" by blast
  from sum_squares_small [OF assms(2,4)] obtain s2 where
    s2: "sum_products (PyInt 0) (squares ys) = Inr s2" "math_sqrt s2 = Inr (magnitude ys)" by blast
  show ?thesis
    using d s1 s2 by (simp add: custom_cosine_similarity_def py_div_def)
qed

lemma similarity_cases:
  assumes "list_all numeric xs" and "list_all numeric ys"
  shows "custom_cosine_similarity (JArr xs) (JArr ys) = Inl OverflowError \<or>
         custom_cosine_similarity (JArr xs) (JArr ys) =
           Inr (if magnitude xs = 0 \<or> magnitude ys = 0 then 0
                else dot xs ys / (magnitude xs * magnitude ys))"
proof -
  from sum_products_cases [OF numeric_pairs_zip [OF assms], of "PyInt 0"]
  have d: "sum_products (PyInt 0) (zip xs ys) = Inl OverflowError \<or>
     (\<exists>n. sum_products (PyInt 0) (zip xs ys) = Inr n \<and> num_real n = dot xs ys)"
    by (simp add: pair_sum_zip)
  note m1 = magnitude_cases [OF assms(1)]
  note m2 = magnitude_cases [OF assms(2)]
  have div: "py_div n b = Inl OverflowError \<or> py_div n b = Inr (dot xs ys / b)"
    if "num_real n = dot xs ys" "b \<noteq> 0" for n b
    using to_float_cases [of n] that by (auto simp: py_div_def)
  from d m1 m2 show ?thesis
    by (elim disjE exE conjE) (use div in \<open>auto simp: custom_cosine_similarity_def\<close>)
qed

lemma similarity_commute:
  assumes "list_all numeric xs" and "list_all numeric ys"
  shows "custom_cosine_similarity (JArr xs) (JArr ys) = custom_cosine_similarity (JArr ys) (JArr xs)"
proof -
  note c = sum_products_zip_commute [of "PyInt 0" xs ys]
  from sum_products_cases [OF numeric_pairs_zip [OF assms], of "PyInt 0"]
  have d: "sum_products (PyInt 0) (zip xs ys) = Inl OverflowError \<or>
     (\<exists>n. sum_products (PyInt 0) (zip xs ys) = Inr n)" by blast
  note m1 = magnitude_cases [OF assms(1)]
  note m2 = magnitude_cases [OF assms(2)]
  from d m1 m2 show ?thesis
    by (elim disjE exE conjE)
       (auto simp: custom_cosine_similarity_def c [symmetric] mult.commute)
qed

lemma floats_numeric: "list_all numeric (map JFloat a)"
  by (induction a) (simp_all add: numeric_def)

lemma floats_small: "small_ints (map JFloat a)"
proof -
  have "int_squares (map JFloat a) = 0"
    by (induction a) (simp_all add: int_squares_def int_square_def)
  then show ?thesis by (simp add: small_ints_def float_limit_def)
qed

subsection \<open>The scan for the best match\<close>

lemma match_loop_visit:
  "match_loop p n (x # rest) acc =
     (case visit p n x of
        Inl e \<Rightarrow> Inl e
      | Inr None \<Rightarrow> match_loop p n rest acc
      | Inr (Some s) \<Rightarrow>
          if s > snd acc then match_loop p n rest (Some x, s) else match_loop p n rest acc)"
  by (simp add: visit_def split: sum.splits)

lemma visit_Some: "visit p n x = Inr (Some s) \<longleftrightarrow> is_candidate n x \<and> similarity_to p x = Inr s"
  by (auto simp: visit_def is_candidate_def split: sum.splits if_splits)

lemma loop_mono:
  "match_loop p n xs (bm, h0) = Inr (bm', h') \<Longrightarrow>
   h0 \<le> h' \<and> (\<forall>x\<in>set xs. \<forall>s. visit p n x = Inr (Some s) \<longrightarrow> s \<le> h')"
proof (induction xs arbitrary: bm h0)
  case Nil
  then show ?case by simp
next
  case (Cons x xs)
  show ?case
  proof (cases "visit p n x")
    case (Inl e)
    with Cons.prems show ?thesis by (simp add: match_loop_visit del: match_loop.simps(2))
  next
    case (Inr r)
    show ?thesis
    proof (cases r)
      case None
      with Inr Cons.prems have "match_loop p n xs (bm, h0) = Inr (bm', h')"
        by (simp add: match_loop_visit del: match_loop.simps(2))
      from Cons.IH [OF this] Inr None show ?thesis by auto
    next
      case (Some s)
      show ?thesis
      proof (cases "s > h0")
        case True
        with Inr Some Cons.prems have "match_loop p n xs (Some x, s) = Inr (bm', h')"
          by (simp add: match_loop_visit del: match_loop.simps(2))
        from Cons.IH [OF this] Inr Some True show ?thesis by auto
      next
        case False
        with Inr Some Cons.prems have "match_loop p n xs (bm, h0) = Inr (bm', h')"
          by (simp add: match_loop_visit del: match_loop.simps(2))
        from Cons.IH [OF this] Inr Some False show ?thesis by auto
      qed
    qed
  qed
qed

lemma loop_keep:
  "match_loop p n xs (bm, h0) = Inr (bm', h') \<Longrightarrow> h' \<le> h0 \<Longrightarrow> bm' = bm \<and> h' = h0"
proof (induction xs arbitrary: bm h0)
  case Nil
  then show ?case by simp
next
  case (Cons x xs)
  show ?case
  proof (cases "visit p n x")
    case (Inl e)
    with Cons.prems show ?thesis by (simp add: match_loop_visit del: match_loop.simps(2))
  next
    case (Inr r)
    show ?thesis
    proof (cases r)
      case None
      with Inr Cons.prems have "match_loop p n xs (bm, h0) = Inr (bm', h')"
        by (simp add: match_loop_visit del: match_loop.simps(2))
      from Cons.IH [OF this] Cons.prems(2) show ?thesis by simp
    next
      case (Some s)
      show ?thesis
      proof (cases "s > h0")
        case True
        with Inr Some Cons.prems have "match_loop p n xs (Some x, s) = Inr (bm', h')"
          by (simp add: match_loop_visit del: match_loop.simps(2))
        from loop_mono [OF this] True Cons.prems(2) show ?thesis by simp
      next
        case False
        with Inr Some Cons.prems have "match_loop p n xs (bm, h0) = Inr (bm', h')"
          by (simp add: match_loop_visit del: match_loop.simps(2))
        from Cons.IH [OF this] Cons.prems(2) show ?thesis by simp
      qed
    qed
  qed
qed

lemma loop_first_max:
  "match_loop p n xs (bm, h0) = Inr (bm', h') \<Longrightarrow> h0 < h' \<Longrightarrow>
   \<exists>pre b post. xs = pre @ b # post \<and> bm' = Some b \<and> visit p n b = Inr (Some h') \<and>
     (\<forall>x\<in>set pre. \<forall>s. visit p n x = Inr (Some s) \<longrightarrow> s < h')"
proof (induction xs arbitrary: bm h0)
  case Nil
  then show ?case by simp
next
  case (Cons x xs)
  show ?case
  proof (cases "visit p n x")
    case (Inl e)
    with Cons.prems show ?thesis by (simp add: match_loop_visit del: match_loop.simps(2))
  next
    case (Inr r)
    show ?thesis
    proof (cases r)
      case None
      with Inr Cons.prems have "match_loop p n xs (bm, h0) = Inr (bm', h')"
        by (simp add: match_loop_visit del: match_loop.simps(2))
      from Cons.IH [OF this Cons.prems(2)] obtain pre b post where
        f: "xs = pre @ b # post" "bm' = Some b" "visit p n b = Inr (Some h')"
           "\<forall>x\<in>set pre. \<forall>s. visit p n x = Inr (Some s) \<longrightarrow> s < h'"
        by blast
      have "x # xs = (x # pre) @ b # post" using f(1) by simp
      moreover have "\<forall>y\<in>set (x # pre). \<forall>s. visit p n y = Inr (Some s) \<longrightarrow> s < h'"
        using f(4) Inr None by simp
      ultimately show ?thesis using f(2,3) by blast
    next
      case (Some s)
      show ?thesis
      proof (cases "s > h0")
        case True
        with Inr Some Cons.prems have run: "match_loop p n xs (Some x, s) = Inr (bm', h')"
          by (simp add: match_loop_visit del: match_loop.simps(2))
        show ?thesis
        proof (cases "s < h'")
          case True
          from Cons.IH [OF run True] obtain pre b post where
            f: "xs = pre @ b # post" "bm' = Some b" "visit p n b = Inr (Some h')"
               "\<forall>x\<in>set pre. \<forall>s. visit p n x = Inr (Some s) \<longrightarrow> s < h'"
            by blast
          have "x # xs = (x # pre) @ b # post" using f(1) by simp
          moreover have "\<forall>y\<in>set (x # pre). \<forall>t. visit p n y = Inr (Some t) \<longrightarrow> t < h'"
            using f(4) Inr Some True by simp
          ultimately show ?thesis using f(2,3) by blast
        next
          case False
          with loop_keep [OF run] have "bm' = Some x" "h' = s" by simp_all
          then have "x # xs = [] @ x # xs \<and> bm' = Some x \<and> visit p n x = Inr (Some h') \<and>
             (\<forall>y\<in>set []. \<forall>t. visit p n y = Inr (Some t) \<longrightarrow> t < h')"
            using Inr Some by simp
          then show ?thesis by blast
        qed
      next
        case False
        with Inr Some Cons.prems have "match_loop p n xs (bm, h0) = Inr (bm', h')"
          by (simp add: match_loop_visit del: match_loop.simps(2))
        from Cons.IH [OF this Cons.prems(2)] obtain pre b post where
          f: "xs = pre @ b # post" "bm' = Some b" "visit p n b = Inr (Some h')"
             "\<forall>x\<in>set pre. \<forall>s. visit p n x = Inr (Some s) \<longrightarrow> s < h'"
          by blast
        have "x # xs = (x # pre) @ b # post" using f(1) by simp
        moreover have "\<forall>y\<in>set (x # pre). \<forall>t. visit p n y = Inr (Some t) \<longrightarrow> t < h'"
          using f(4) Inr Some False Cons.prems(2) by auto
        ultimately show ?thesis using f(2,3) by blast
      qed
    qed
  qed
qed

subsection \<open>The store and the id counter\<close>

lemma map_of_update_key:
  "map_of (update_key k v kvs) k' = (if k' = k then Some v else map_of kvs k')"
  by (induction kvs) auto

lemma update_key_nonempty: "update_key k v kvs \<noteq> []"
  by (cases kvs) auto

lemma snd_mero_ai:
  "snd (mero_ai profile s) =
     (if \<not> truthy profile then s
      else (case set_item profile ''id'' (JInt (USER_ID_COUNTER s + 1)) of
              Inl e \<Rightarrow> s\<lparr>USER_ID_COUNTER := USER_ID_COUNTER s + 1\<rparr>
            | Inr p' \<Rightarrow> s\<lparr>USER_ID_COUNTER := USER_ID_COUNTER s + 1,
                            user_profiles_memory := user_profiles_memory s @ [p']\<rparr>))"
  by (simp add: mero_ai_def Let_def split: sum.splits prod.splits)

lemma snd_mero_ai_not_dict:
  "truthy profile \<Longrightarrow> \<not> is_dict profile \<Longrightarrow>
   snd (mero_ai profile s) = s\<lparr>USER_ID_COUNTER := USER_ID_COUNTER s + 1\<rparr>"
  by (cases profile) (simp_all add: snd_mero_ai)

lemma ids_ok_step: "ids_ok s \<Longrightarrow> ids_ok (snd (mero_ai profile s))"
proof -
  assume "ids_ok s"
  then obtain ns where ns: "stored_ids s = int_ids ns" "sorted_wrt (<) ns"
      "list_all (\<lambda>n. 1 \<le> n \<and> n \<le> USER_ID_COUNTER s) ns"
    and c0: "0 \<le> USER_ID_COUNTER s"
    unfolding ids_ok_def by blast
  let ?c = "USER_ID_COUNTER s + 1"
  have bump: "list_all (\<lambda>n. 1 \<le> n \<and> n \<le> ?c) ns"
    using ns(3) by (induction ns) auto
  show ?thesis
  proof (cases "truthy profile")
    case False
    then show ?thesis using \<open>ids_ok s\<close> by (simp add: snd_mero_ai)
  next
    case True
    show ?thesis
    proof (cases "is_dict profile")
      case True
      then obtain kvs where JObj: "profile = JObj kvs" by (cases profile) auto
      let ?s' = "s\<lparr>USER_ID_COUNTER := ?c,
                    user_profiles_memory := user_profiles_memory s @ [JObj (update_key ''id'' (JInt ?c) kvs)]\<rparr>"
      have s': "snd (mero_ai profile s) = ?s'"
        using \<open>truthy profile\<close> JObj by (simp add: snd_mero_ai)
      have "stored_ids ?s' = int_ids (ns @ [?c])"
        using ns(1) by (simp add: stored_ids_def int_ids_def map_of_update_key)
      moreover have "sorted_wrt (<) (ns @ [?c])"
        using ns(2,3) by (auto simp: sorted_wrt_append list_all_iff)
      moreover have "list_all (\<lambda>n. 1 \<le> n \<and> n \<le> USER_ID_COUNTER ?s') (ns @ [?c])"
        using bump ns(3) c0 by (auto simp: list_all_iff)
      moreover have "0 \<le> USER_ID_COUNTER ?s'" using c0 by simp
      ultimately show ?thesis unfolding s' ids_ok_def by blast
    next
      case False
      have "snd (mero_ai profile s) = s\<lparr>USER_ID_COUNTER := ?c\<rparr>"
        using True False by (rule snd_mero_ai_not_dict)
      then show ?thesis using ns bump c0 unfolding ids_ok_def by (auto simp: stored_ids_def)
    qed
  qed
qed

lemma ids_ok_run: "ids_ok s \<Longrightarrow> ids_ok (run rs s)"
  by (induction rs arbitrary: s) (simp_all add: ids_ok_step)

lemma ids_ok_initial: "ids_ok initial_state"
proof -
  have "stored_ids initial_state = int_ids [] \<and> sorted_wrt (<) ([]::int list) \<and>
        list_all (\<lambda>n. 1 \<le> n \<and> n \<le> USER_ID_COUNTER initial_state) []"
    by (simp add: initial_state_def stored_ids_def int_ids_def)
  then show ?thesis unfolding ids_ok_def by (auto simp: initial_state_def)
qed

lemma upto_snoc: "0 \<le> (c::int) \<Longrightarrow> [1..c + 1] = [1..c] @ [c + 1]"
  using upto_rec2 [of 1 "c + 1"] by simp

lemma ids_dense_step:
  "ids_dense s \<Longrightarrow> truthy profile \<longrightarrow> is_dict profile \<Longrightarrow> ids_dense (snd (mero_ai profile s))"
proof (cases "truthy profile")
  case False
  assume "ids_dense s"
  with False show ?thesis by (simp add: snd_mero_ai)
next
  case True
  assume d: "ids_dense s" and "truthy profile \<longrightarrow> is_dict profile"
  with True obtain kvs where p: "profile = JObj kvs" by (cases profile) auto
  show ?thesis
    using d True p
    by (simp add: snd_mero_ai ids_dense_def stored_ids_def int_ids_def map_of_update_key upto_snoc)
qed

lemma ids_dense_run:
  "ids_dense s \<Longrightarrow> list_all (\<lambda>r. truthy r \<longrightarrow> is_dict r) rs \<Longrightarrow> ids_dense (run rs s)"
  by (induction rs arbitrary: s) (simp_all add: ids_dense_step)

lemma ids_dense_initial: "ids_dense initial_state"
  by (simp add: ids_dense_def initial_state_def stored_ids_def int_ids_def)

lemma length_store_dense: "ids_dense s \<Longrightarrow> int (length (user_profiles_memory s)) = USER_ID_COUNTER s"
proof -
  assume d: "ids_dense s"
  then have "length (stored_ids s) = length (int_ids [1..USER_ID_COUNTER s])" by (simp add: ids_dense_def)
  then show ?thesis using d by (simp add: stored_ids_def int_ids_def ids_dense_def)
qed

lemma mero_ai_success:
  assumes "mero_ai profile s = (Inr r, s')" and "r \<noteq> Apology"
  shows "\<exists>p'. set_item profile ''id'' (JInt (USER_ID_COUNTER s + 1)) = Inr p' \<and>
              subscript p' ''id'' = Inr (JInt (USER_ID_COUNTER s + 1)) \<and>
              user_profiles_memory s' = user_profiles_memory s @ [p'] \<and>
              USER_ID_COUNTER s' = USER_ID_COUNTER s + 1"
proof -
  have t: "truthy profile" using assms by (auto simp: mero_ai_def split: if_splits)
  obtain kvs where p: "profile = JObj kvs"
    using assms t by (cases profile) (auto simp: mero_ai_def Let_def)
  have "s' = snd (mero_ai profile s)" using assms(1) by simp
  then show ?thesis using t p by (simp add: snd_mero_ai map_of_update_key)
qed

subsection \<open>The scan, the reply and the whole tool on profiles of the expected shape\<close>

lemma loop_ok:
  "match_loop p n xs acc = Inr r \<Longrightarrow> x \<in> set xs \<Longrightarrow> \<exists>v. visit p n x = Inr v"
proof (induction xs arbitrary: acc)
  case Nil
  then show ?case by simp
next
  case (Cons y ys)
  from Cons.prems(1) obtain v where v: "visit p n y = Inr v"
    by (cases "visit p n y") (simp_all add: match_loop_visit del: match_loop.simps(2))
  from Cons.prems(1) v obtain acc' where "match_loop p n ys acc' = Inr r"
    by (cases v) (auto simp: match_loop_visit simp del: match_loop.simps(2) split: if_splits)
  from Cons.IH [OF this] Cons.prems(2) v show ?case by auto
qed

lemma candidate_visit:
  "is_candidate n x \<Longrightarrow> visit p n x = Inr v \<Longrightarrow> \<exists>s. v = Some s \<and> similarity_to p x = Inr s"
  by (auto simp: visit_def is_candidate_def split: sum.splits if_splits)

lemma sim_ex1:
  "similarity_to (stored [JInt 1, JInt 0, JInt 0, JInt 0, JInt 0] i1 n1)
     (stored [JInt 1, JInt 0, JInt 0, JInt 0, JInt 0] i2 n2) = Inr 1"
  by (simp add: similarity_to_def stored_def custom_cosine_similarity_def squares_def py_mul_def
      math_sqrt_def py_div_def float_limit_def)

lemma sim_ex0:
  "similarity_to (stored [JInt 1, JInt 0, JInt 0, JInt 0, JInt 0] i1 n1)
     (stored [JInt 0, JInt 1, JInt 0, JInt 0, JInt 0] i2 n2) = Inr 0"
  by (simp add: similarity_to_def stored_def custom_cosine_similarity_def squares_def py_mul_def
      math_sqrt_def py_div_def float_limit_def)

lemma sim_exm1:
  "similarity_to (stored [JInt 1, JInt 0, JInt 0, JInt 0, JInt 0] i1 n1)
     (stored [JInt (- 1), JInt 0, JInt 0, JInt 0, JInt 0] i2 n2) = Inr (- 1)"
  by (simp add: similarity_to_def stored_def custom_cosine_similarity_def squares_def py_mul_def
      math_sqrt_def py_div_def float_limit_def)

lemma stored_id: "subscript (stored v i n) ''id'' = Inr (JInt n)"
  by (simp add: stored_def)

lemma differs_JInt: "differs_from_int (JInt m) n = (m \<noteq> n)"
  by (simp add: differs_from_int_def)

lemma set_item_analysis: "set_item (analysis v i) ''id'' (JInt n) = Inr (stored v i n)"
  by (simp add: analysis_def stored_def)

lemma truthy_analysis: "truthy (analysis v i)"
  by (simp add: analysis_def)

lemma str_items_strs: "str_items (map JStr ss) = Inr ss"
  by (induction ss) simp_all

lemma respond_stored_None: "respond (stored v i n) None h = Inr (FirstUser (intercalate '', '' i))"
  by (simp add: respond_def stored_def join_def str_items_strs)

lemma loop_no_candidates:
  "list_all (\<lambda>x. has_id x \<and> \<not> is_candidate n x) xs \<Longrightarrow> match_loop p n xs acc = Inr acc"
  by (induction xs) (auto simp: has_id_def is_candidate_def split: sum.splits)

lemma respond_None:
  "respond p None h =
     (case subscript p ''interests'' of Inl e \<Rightarrow> Inl e | Inr v \<Rightarrow>
     (case join '', '' v of Inl e \<Rightarrow> Inl e | Inr io \<Rightarrow> Inr (FirstUser io)))"
  by (simp add: respond_def split: sum.splits)

lemma mero_ai_empty_store:
  "user_profiles_memory s = [] \<Longrightarrow> set_item profile ''id'' (JInt (USER_ID_COUNTER s + 1)) = Inr p' \<Longrightarrow>
   truthy profile \<Longrightarrow> fst (mero_ai profile s) = respond p' None (- 1)"
  by (simp add: mero_ai_def Let_def find_best_match_def)

lemma subscript_set_item:
  "set_item p k v = Inr p' \<Longrightarrow> k' \<noteq> k \<Longrightarrow> subscript p' k' = subscript p k'"
  by (cases p) (auto simp: map_of_update_key)

lemma subscript_truthy: "subscript p k = Inr v \<Longrightarrow> truthy p \<and> is_dict p"
  by (cases p) (auto split: option.splits)

lemma is_dict_set_item: "is_dict p \<Longrightarrow> \<exists>p'. set_item p k v = Inr p'"
  by (cases p) auto










text \<open>
  Where the scan returns a profile, it is the first of maximal similarity among the
  candidates.
\<close>

lemma first_wins_on_ties:
  assumes "find_best_match profile n memory = Inr r"
    and "1 < length memory"
    and "\<exists>x\<in>set memory. is_candidate n x \<and> (\<exists>s. similarity_to profile x = Inr s \<and> - 1 < s)"
  shows "\<exists>pre b post h. r = (Some b, h) \<and> memory = pre @ b # post \<and>
           is_candidate n b \<and> similarity_to profile b = Inr h \<and> - 1 < h \<and>
           (\<forall>x\<in>set pre. is_candidate n x \<longrightarrow> (\<exists>s. similarity_to profile x = Inr s \<and> s < h)) \<and>
           (\<forall>x\<in>set post. is_candidate n x \<longrightarrow> (\<exists>s. similarity_to profile x = Inr s \<and> s \<le> h))"
proof -
  obtain bm h where r: "r = (bm, h)" by (cases r)
  have run: "match_loop profile n memory (None, - 1) = Inr (bm, h)"
    using assms(1,2) r by (simp add: find_best_match_def)
  from assms(3) obtain x s where x: "x \<in> set memory" "visit profile n x = Inr (Some s)" "- 1 < s"
    by (auto simp: visit_Some)
  from loop_mono [OF run] have le: "\<forall>y\<in>set memory. \<forall>t. visit profile n y = Inr (Some t) \<longrightarrow> t \<le> h"
    by blast
  with x have h: "- 1 < h" by fastforce
  from loop_first_max [OF run h] obtain pre b post where
    f: "memory = pre @ b # post" "bm = Some b" "visit profile n b = Inr (Some h)"
       "\<forall>y\<in>set pre. \<forall>t. visit profile n y = Inr (Some t) \<longrightarrow> t < h"
    by blast
  have sc: "\<exists>t. visit profile n y = Inr (Some t) \<and> similarity_to profile y = Inr t"
    if "y \<in> set memory" "is_candidate n y" for y
  proof -
    from loop_ok [OF run that(1)] obtain v where "visit profile n y = Inr v" by blast
    with candidate_visit [OF that(2) this] show ?thesis by auto
  qed
  have pre: "\<forall>y\<in>set pre. is_candidate n y \<longrightarrow> (\<exists>t. similarity_to profile y = Inr t \<and> t < h)"
  proof (intro ballI impI)
    fix y assume "y \<in> set pre" "is_candidate n y"
    with sc [of y] f(1) obtain t where "visit profile n y = Inr (Some t)" "similarity_to profile y = Inr t"
      by auto
    with f(4) \<open>y \<in> set pre\<close> show "\<exists>t. similarity_to profile y = Inr t \<and> t < h" by blast
  qed
  have post: "\<forall>y\<in>set post. is_candidate n y \<longrightarrow> (\<exists>t. similarity_to profile y = Inr t \<and> t \<le> h)"
  proof (intro ballI impI)
    fix y assume "y \<in> set post" "is_candidate n y"
    with sc [of y] f(1) obtain t where t: "visit profile n y = Inr (Some t)" "similarity_to profile y = Inr t"
      by auto
    from le f(1) \<open>y \<in> set post\<close> t(1) have "t \<le> h" by auto
    with t(2) show "\<exists>t. similarity_to profile y = Inr t \<and> t \<le> h" by blast
  qed
  from f(3) have "is_candidate n b" "similarity_to profile b = Inr h"
    by (simp_all add: visit_Some)
  with r f(1,2) h pre post show ?thesis by blast
qed

section \<open>The claims\<close>

subsection \<open>\<open>custom_cosine_similarity\<close>\<close>




text \<open>
  C4, as stated: for every two vectors of equal length of which one has the Euclidean
  norm zero the similarity is exactly 0 and no error. Both magnitudes are computed
  before the test for zero: against the all-zero vector of length 5, a vector that holds
  the int \<open>10^155\<close> makes \<open>math.sqrt\<close> raise \<open>OverflowError\<close> on the sum of its squares,
  the int \<open>10^310\<close>.
\<close>

theorem zero_norm_overflow_counterexample:
  "length (map JFloat [0, 0, 0, 0, 0]) = length [JInt (10 ^ 155), JInt 0, JInt 0, JInt 0, JInt 0] \<and>
   magnitude (map JFloat [0, 0, 0, 0, 0]) = 0 \<and>
   custom_cosine_similarity (vec [0, 0, 0, 0, 0])
     (JArr [JInt (10 ^ 155), JInt 0, JInt 0, JInt 0, JInt 0]) = Inl OverflowError"
  by (simp add: vec_def magnitude_def dot_def num_val_def custom_cosine_similarity_def squares_def
      py_mul_def math_sqrt_def float_limit_def)

text \<open>
  C4, amended: for two lists of numbers of equal length, when the Euclidean norm of
  either is exactly zero the similarity is exactly 0, unless \<open>OverflowError\<close> is raised
  on an int too large to convert to float; it is 0, a number and no exception, whenever
  the ints of both lists are small (as in C1). In particular the all-zero vector of
  length 5 has similarity 0 with every list of 5 numbers whose ints are small.
\<close>

theorem zero_norm_similarity:
  "(list_all numeric xs \<and> list_all numeric ys \<and>
      length xs = length ys \<and> (magnitude xs = 0 \<or> magnitude ys = 0)
      \<longrightarrow> custom_cosine_similarity (JArr xs) (JArr ys) = Inr 0 \<or>
          custom_cosine_similarity (JArr xs) (JArr ys) = Inl OverflowError) \<and>
   (list_all numeric xs \<and> list_all numeric ys \<and> small_ints xs \<and> small_ints ys \<and>
      length xs = length ys \<and> (magnitude xs = 0 \<or> magnitude ys = 0)
      \<longrightarrow> custom_cosine_similarity (JArr xs) (JArr ys) = Inr 0) \<and>
   (list_all numeric zs \<and> small_ints zs \<and> length zs = 5
      \<longrightarrow> custom_cosine_similarity (vec [0, 0, 0, 0, 0]) (JArr zs) = Inr 0)"
proof -
  have z: "magnitude (map JFloat [0, 0, 0, 0, 0]) = 0"
    by (simp add: magnitude_def dot_def num_val_def)
  have c: "custom_cosine_similarity (JArr xs) (JArr ys) = Inr 0 \<or>
          custom_cosine_similarity (JArr xs) (JArr ys) = Inl OverflowError"
    if "list_all numeric xs" "list_all numeric ys" "magnitude xs = 0 \<or> magnitude ys = 0"
    using similarity_cases [OF that(1,2)] that(3) by auto
  show ?thesis
    using z floats_numeric [of "[0, 0, 0, 0, 0]"] floats_small [of "[0, 0, 0, 0, 0]"] c
    by (auto simp: similarity_small vec_def simp del: list.map)
qed

theorem zero_norm_similarity_witness:
  "list_all numeric [JFloat 0, JInt 0] \<and> list_all numeric [JFloat (1/2), JInt 7] \<and>
   small_ints [JFloat 0, JInt 0] \<and> small_ints [JFloat (1/2), JInt 7] \<and>
   length [JFloat 0, JInt 0] = length [JFloat (1/2), JInt 7] \<and>
   magnitude [JFloat 0, JInt 0] = 0 \<and>
   custom_cosine_similarity (JArr [JFloat 0, JInt 0]) (JArr [JFloat (1/2), JInt 7]) = Inr 0 \<and>
   list_all numeric [JFloat (4/5), JFloat (1/5), JInt 1, JInt (- 3), JBool True] \<and>
   small_ints [JFloat (4/5), JFloat (1/5), JInt 1, JInt (- 3), JBool True] \<and>
   length [JFloat (4/5), JFloat (1/5), JInt 1, JInt (- 3), JBool True] = 5 \<and>
   custom_cosine_similarity (vec [0, 0, 0, 0, 0])
     (JArr [JFloat (4/5), JFloat (1/5), JInt 1, JInt (- 3), JBool True]) = Inr 0"
proof -
  have a: "list_all numeric [JFloat 0, JInt 0]" "list_all numeric [JFloat (1/2), JInt 7]"
      "list_all numeric [JFloat (4/5), JFloat (1/5), JInt 1, JInt (- 3), JBool True]"
    by (simp_all add: numeric_def)
  have s: "small_ints [JFloat 0, JInt 0]" "small_ints [JFloat (1/2), JInt 7]"
      "small_ints [JFloat (4/5), JFloat (1/5), JInt 1, JInt (- 3), JBool True]"
    by (simp_all add: small_ints_def int_squares_def int_square_def float_limit_def)
  have m: "magnitude [JFloat 0, JInt 0] = 0"
    by (simp add: magnitude_def dot_def num_val_def)
  note th = zero_norm_similarity [of "[JFloat 0, JInt 0]" "[JFloat (1/2), JInt 7]"
        "[JFloat (4/5), JFloat (1/5), JInt 1, JInt (- 3), JBool True]"]
  have l: "length [JFloat 0, JInt 0] = length [JFloat (1/2), JInt 7]"
      "length [JFloat (4/5), JFloat (1/5), JInt 1, JInt (- 3), JBool True] = 5"
    by simp_all
  from th a(1,2) s(1,2) l(1) m
  have r1: "custom_cosine_similarity (JArr [JFloat 0, JInt 0]) (JArr [JFloat (1/2), JInt 7]) = Inr 0"
    by blast
  from th a(3) s(3) l(2)
  have r2: "custom_cosine_similarity (vec [0, 0, 0, 0, 0])
     (JArr [JFloat (4/5), JFloat (1/5), JInt 1, JInt (- 3), JBool True]) = Inr 0"
    by blast
  from a s l m r1 r2 show ?thesis by (intro conjI)
qed

text \<open>
  C9: the similarity is symmetric, \<open>custom_cosine_similarity a b\<close> equals
  \<open>custom_cosine_similarity b a\<close> for all lists of numbers \<open>a\<close> and \<open>b\<close>, as a number and
  as an exception; the lengths need not even be equal.
\<close>

theorem similarity_symmetric:
  assumes "list_all numeric xs" and "list_all numeric ys"
  shows "custom_cosine_similarity (JArr xs) (JArr ys) = custom_cosine_similarity (JArr ys) (JArr xs)"
  using assms by (rule similarity_commute)

theorem similarity_symmetric_witness:
  "list_all numeric [JInt 3, JInt 4] \<and> list_all numeric [JInt 1, JInt 0] \<and>
   custom_cosine_similarity (JArr [JInt 3, JInt 4]) (JArr [JInt 1, JInt 0]) = Inr (3 / 5) \<and>
   custom_cosine_similarity (JArr [JInt 1, JInt 0]) (JArr [JInt 3, JInt 4]) = Inr (3 / 5)"
proof -
  have n: "list_all numeric [JInt 3, JInt 4]" "list_all numeric [JInt 1, JInt 0]"
    by (simp_all add: numeric_def)
  have v: "custom_cosine_similarity (JArr [JInt 3, JInt 4]) (JArr [JInt 1, JInt 0]) = Inr (3 / 5)"
    by (simp add: custom_cosine_similarity_def squares_def py_mul_def math_sqrt_def py_div_def
        float_limit_def real_sqrt_unique [of 5 25])
  show ?thesis
    using similarity_symmetric [OF n] n v by simp
qed




subsection \<open>The scan for the best match\<close>

text \<open>
  C2: for every non-empty sequence of candidates the scan returns a candidate, the one
  of greatest similarity, since the initial value of \<open>highest_similarity\<close> is below every
  similarity, also a negative one. The code starts from \<open>highest_similarity = -1\<close> and
  compares with \<open>>\<close>, so a candidate of similarity -1 is never taken. After one user
  with the vector \<open>[-1, 0, 0, 0, 0]\<close> has been stored, a second user with
  \<open>[1, 0, 0, 0, 0]\<close> has that one candidate, of similarity -1, and is told to be the
  first user.
\<close>

theorem sentinel_skips_candidate:
  "run [analysis [JInt (- 1), JInt 0, JInt 0, JInt 0, JInt 0] [''chess'']] initial_state =
     \<lparr>user_profiles_memory = [stored [JInt (- 1), JInt 0, JInt 0, JInt 0, JInt 0] [''chess''] 1],
      USER_ID_COUNTER = 1\<rparr> \<and>
   similarity_to (stored [JInt 1, JInt 0, JInt 0, JInt 0, JInt 0] [''go''] 2)
     (stored [JInt (- 1), JInt 0, JInt 0, JInt 0, JInt 0] [''chess''] 1) = Inr (- 1) \<and>
   mero_ai (analysis [JInt 1, JInt 0, JInt 0, JInt 0, JInt 0] [''go''])
     \<lparr>user_profiles_memory = [stored [JInt (- 1), JInt 0, JInt 0, JInt 0, JInt 0] [''chess''] 1],
      USER_ID_COUNTER = 1\<rparr> =
     (Inr (FirstUser ''go''),
      \<lparr>user_profiles_memory =
         [stored [JInt (- 1), JInt 0, JInt 0, JInt 0, JInt 0] [''chess''] 1,
          stored [JInt 1, JInt 0, JInt 0, JInt 0, JInt 0] [''go''] 2],
       USER_ID_COUNTER = 2\<rparr>)"
  by (simp add: snd_mero_ai initial_state_def mero_ai_def truthy_analysis set_item_analysis
      find_best_match_def stored_id differs_JInt sim_exm1 respond_stored_None)

text \<open>
  C3: when several candidates share the maximum similarity, the scan selects the
  first of them in store order. The comparison is the strict \<open>>\<close> the claim names, and
  wherever the scan returns a profile it is the first of maximal similarity (lemma
  \<open>first_wins_on_ties\<close>). But the scan starts from \<open>highest_similarity = -1\<close>, the
  defect of C2: two candidates that share the maximum -1 are both passed over, and the
  scan selects nobody where the claim has it select the first.
\<close>

theorem tie_at_sentinel_skipped:
  "similarity_to (stored [JInt 1, JInt 0, JInt 0, JInt 0, JInt 0] [''go''] 3)
     (stored [JInt (- 1), JInt 0, JInt 0, JInt 0, JInt 0] [''chess''] 1) = Inr (- 1) \<and>
   similarity_to (stored [JInt 1, JInt 0, JInt 0, JInt 0, JInt 0] [''go''] 3)
     (stored [JInt (- 1), JInt 0, JInt 0, JInt 0, JInt 0] [''tennis''] 2) = Inr (- 1) \<and>
   find_best_match (stored [JInt 1, JInt 0, JInt 0, JInt 0, JInt 0] [''go''] 3) 3
     [stored [JInt (- 1), JInt 0, JInt 0, JInt 0, JInt 0] [''chess''] 1,
      stored [JInt (- 1), JInt 0, JInt 0, JInt 0, JInt 0] [''tennis''] 2,
      stored [JInt 1, JInt 0, JInt 0, JInt 0, JInt 0] [''go''] 3]
     = Inr (None, - 1)"
  by (simp add: find_best_match_def stored_id differs_JInt sim_exm1)

text \<open>
  C8: without a candidate the scan returns no match: on the empty list, and on any
  store whose profiles all carry the new id. The first ingestion into an empty store
  therefore never reports a connection, and replies with the first-user text whenever
  the interests can be joined.
\<close>

theorem no_candidates_no_match:
  "(list_all (\<lambda>x. has_id x \<and> \<not> is_candidate n x) memory
      \<longrightarrow> find_best_match profile n memory = Inr (None, - 1)) \<and>
   find_best_match profile n [] = Inr (None, - 1) \<and>
   (user_profiles_memory s = []
      \<longrightarrow> (\<forall>io bid pc. fst (mero_ai result s) \<noteq> Inr (ConnectionFound io bid pc))) \<and>
   (user_profiles_memory s = [] \<and> subscript result ''interests'' = Inr v \<and> join '', '' v = Inr io
      \<longrightarrow> fst (mero_ai result s) = Inr (FirstUser io))"
proof (intro conjI impI allI)
  assume "list_all (\<lambda>x. has_id x \<and> \<not> is_candidate n x) memory"
  then show "find_best_match profile n memory = Inr (None, - 1)"
    by (simp add: find_best_match_def loop_no_candidates)
next
  show "find_best_match profile n [] = Inr (None, - 1)"
    by (simp add: find_best_match_def)
next
  fix io bid pc
  assume e: "user_profiles_memory s = []"
  show "fst (mero_ai result s) \<noteq> Inr (ConnectionFound io bid pc)"
  proof (cases "truthy result")
    case False
    then show ?thesis by (simp add: mero_ai_def)
  next
    case True
    show ?thesis
    proof (cases "set_item result ''id'' (JInt (USER_ID_COUNTER s + 1))")
      case (Inl err)
      with True show ?thesis by (simp add: mero_ai_def Let_def)
    next
      case (Inr p')
      from mero_ai_empty_store [OF e Inr True] show ?thesis
        by (simp add: respond_None split: sum.splits)
    qed
  qed
next
  assume a: "user_profiles_memory s = [] \<and> subscript result ''interests'' = Inr v \<and> join '', '' v = Inr io"
  then have t: "truthy result" "is_dict result" using subscript_truthy by blast+
  from is_dict_set_item [OF t(2)] obtain p' where
    p': "set_item result ''id'' (JInt (USER_ID_COUNTER s + 1)) = Inr p'" by blast
  have "subscript p' ''interests'' = Inr v"
    using subscript_set_item [OF p', of "''interests''"] a by simp
  with mero_ai_empty_store [OF _ p' t(1)] a show "fst (mero_ai result s) = Inr (FirstUser io)"
    by (simp add: respond_None)
qed

theorem no_candidates_no_match_witness:
  "list_all (\<lambda>x. has_id x \<and> \<not> is_candidate 1 x) [stored [JInt 1, JInt 0] [''go''] 1] \<and>
   find_best_match (stored [JInt 1, JInt 0] [''go''] 1) 1 [stored [JInt 1, JInt 0] [''go''] 1]
     = Inr (None, - 1) \<and>
   user_profiles_memory initial_state = [] \<and>
   subscript (analysis [JInt 1, JInt 0] [''go'', ''chess'']) ''interests''
     = Inr (JArr [JStr ''go'', JStr ''chess'']) \<and>
   join '', '' (JArr [JStr ''go'', JStr ''chess'']) = Inr ''go, chess'' \<and>
   fst (mero_ai (analysis [JInt 1, JInt 0] [''go'', ''chess'']) initial_state)
     = Inr (FirstUser ''go, chess'')"
proof -
  have a: "list_all (\<lambda>x. has_id x \<and> \<not> is_candidate 1 x) [stored [JInt 1, JInt 0] [''go''] 1]"
    by (simp add: has_id_def is_candidate_def stored_id differs_JInt)
  have b: "user_profiles_memory initial_state = []" by (simp add: initial_state_def)
  have c: "subscript (analysis [JInt 1, JInt 0] [''go'', ''chess'']) ''interests''
     = Inr (JArr [JStr ''go'', JStr ''chess''])" by (simp add: analysis_def)
  have d: "join '', '' (JArr [JStr ''go'', JStr ''chess'']) = Inr ''go, chess''"
    by (simp add: join_def)
  show ?thesis
    using no_candidates_no_match [of 1 "[stored [JInt 1, JInt 0] [''go''] 1]"
        "stored [JInt 1, JInt 0] [''go''] 1" initial_state
        "analysis [JInt 1, JInt 0] [''go'', ''chess'']" "JArr [JStr ''go'', JStr ''chess'']"
        "''go, chess''"] a b c d
    by simp
qed

subsection \<open>Ingestion\<close>

text \<open>
  C7: when the analyzer returns \<open>None\<close>, \<open>mero_ai\<close> returns the apology and leaves
  both the store and the id counter as they were.
\<close>

theorem analysis_unavailable: "mero_ai JNull s = (Inr Apology, s)"
  by (simp add: mero_ai_def)

theorem analysis_unavailable_witness:
  "mero_ai JNull initial_state = (Inr Apology, initial_state) \<and>
   user_profiles_memory (snd (mero_ai JNull initial_state)) = [] \<and>
   USER_ID_COUNTER (snd (mero_ai JNull initial_state)) = 0"
  using analysis_unavailable [of initial_state] by (simp add: initial_state_def)




text \<open>
  C6, as stated: ids start at 1 and grow by exactly 1 from one successful ingestion to
  the next. An analyzer result that is true but no dictionary, such as the list \<open>[1]\<close>,
  increments the counter and then raises at \<open>profile['id'] = ...\<close>, so the first
  profile ever stored afterwards has the id 2.
\<close>

theorem id_skipped_counterexample:
  "fst (mero_ai (JArr [JInt 1]) initial_state) = Inl TypeError \<and>
   fst (mero_ai (analysis [JInt 1] [''go'']) (snd (mero_ai (JArr [JInt 1]) initial_state)))
     = Inr (FirstUser ''go'') \<and>
   stored_ids (run [JArr [JInt 1], analysis [JInt 1] [''go'']] initial_state) = [Inr (JInt 2)]"
  by (simp add: snd_mero_ai initial_state_def mero_ai_def truthy_analysis set_item_analysis
      find_best_match_def respond_stored_None stored_ids_def stored_id)

text \<open>
  C6, amended: after any sequence of calls from the start of the process the stored
  ids are ints between 1 and the counter that increase strictly along the store, hence
  are unique; when every true analyzer result was a dictionary they are exactly
  1, 2, ..., n with n the counter and the size of the store; and every call that returns
  a reply other than the apology has appended exactly one profile, with the id one above
  the previous counter.
\<close>

theorem ids_assigned_in_order:
  "(\<exists>ns. stored_ids (run results initial_state) = int_ids ns \<and> sorted_wrt (<) ns \<and> distinct ns \<and>
         list_all (\<lambda>n. 1 \<le> n \<and> n \<le> USER_ID_COUNTER (run results initial_state)) ns) \<and>
   distinct (stored_ids (run results initial_state)) \<and>
   (list_all (\<lambda>r. truthy r \<longrightarrow> is_dict r) results \<longrightarrow>
      stored_ids (run results initial_state) = int_ids [1..USER_ID_COUNTER (run results initial_state)] \<and>
      int (length (user_profiles_memory (run results initial_state)))
        = USER_ID_COUNTER (run results initial_state)) \<and>
   (mero_ai result s = (Inr r, s') \<and> r \<noteq> Apology \<longrightarrow>
      (\<exists>p'. set_item result ''id'' (JInt (USER_ID_COUNTER s + 1)) = Inr p' \<and>
            subscript p' ''id'' = Inr (JInt (USER_ID_COUNTER s + 1)) \<and>
            user_profiles_memory s' = user_profiles_memory s @ [p'] \<and>
            USER_ID_COUNTER s' = USER_ID_COUNTER s + 1))"
proof (intro conjI impI)
  let ?s = "run results initial_state"
  from ids_ok_run [OF ids_ok_initial, of results] obtain ns where
    ns: "stored_ids ?s = int_ids ns" "sorted_wrt (<) ns"
        "list_all (\<lambda>n. 1 \<le> n \<and> n \<le> USER_ID_COUNTER ?s) ns"
    unfolding ids_ok_def by blast
  from ns(2) have d: "distinct ns" by (simp add: strict_sorted_iff)
  from ns d show "\<exists>ns. stored_ids ?s = int_ids ns \<and> sorted_wrt (<) ns \<and> distinct ns \<and>
         list_all (\<lambda>n. 1 \<le> n \<and> n \<le> USER_ID_COUNTER ?s) ns" by blast
  have "inj (\<lambda>n. (Inr (JInt n) :: py_error + json))" by (simp add: inj_def)
  with d ns(1) show "distinct (stored_ids ?s)" by (simp add: int_ids_def distinct_map inj_on_def)
next
  let ?s = "run results initial_state"
  assume "list_all (\<lambda>r. truthy r \<longrightarrow> is_dict r) results"
  from ids_dense_run [OF ids_dense_initial this] have dense: "ids_dense ?s" .
  then show "stored_ids ?s = int_ids [1..USER_ID_COUNTER ?s]" by (simp add: ids_dense_def)
  from length_store_dense [OF dense]
  show "int (length (user_profiles_memory ?s)) = USER_ID_COUNTER ?s" .
next
  assume "mero_ai result s = (Inr r, s') \<and> r \<noteq> Apology"
  then show "\<exists>p'. set_item result ''id'' (JInt (USER_ID_COUNTER s + 1)) = Inr p' \<and>
            subscript p' ''id'' = Inr (JInt (USER_ID_COUNTER s + 1)) \<and>
            user_profiles_memory s' = user_profiles_memory s @ [p'] \<and>
            USER_ID_COUNTER s' = USER_ID_COUNTER s + 1"
    using mero_ai_success by blast
qed

theorem ids_assigned_in_order_witness:
  "list_all (\<lambda>r. truthy r \<longrightarrow> is_dict r) [analysis [JInt 1] [''go''], JNull, analysis [JInt 1] [''chess'']] \<and>
   USER_ID_COUNTER (run [analysis [JInt 1] [''go''], JNull, analysis [JInt 1] [''chess'']] initial_state) = 2 \<and>
   stored_ids (run [analysis [JInt 1] [''go''], JNull, analysis [JInt 1] [''chess'']] initial_state)
     = int_ids [1..2] \<and>
   distinct (stored_ids (run [analysis [JInt 1] [''go''], JNull, analysis [JInt 1] [''chess'']] initial_state)) \<and>
   mero_ai (analysis [JInt 1] [''go'']) initial_state =
     (Inr (FirstUser ''go''), \<lparr>user_profiles_memory = [stored [JInt 1] [''go''] 1], USER_ID_COUNTER = 1\<rparr>) \<and>
   FirstUser ''go'' \<noteq> Apology \<and>
   (\<exists>p'. set_item (analysis [JInt 1] [''go'']) ''id'' (JInt (USER_ID_COUNTER initial_state + 1)) = Inr p' \<and>
         user_profiles_memory \<lparr>user_profiles_memory = [stored [JInt 1] [''go''] 1], USER_ID_COUNTER = 1\<rparr>
           = user_profiles_memory initial_state @ [p'])"
proof -
  let ?rs = "[analysis [JInt 1] [''go''], JNull, analysis [JInt 1] [''chess'']]"
  let ?s1 = "\<lparr>user_profiles_memory = [stored [JInt 1] [''go''] 1], USER_ID_COUNTER = 1\<rparr>"
  have a: "list_all (\<lambda>r. truthy r \<longrightarrow> is_dict r) ?rs"
    by (simp add: analysis_def)
  have c: "USER_ID_COUNTER (run ?rs initial_state) = 2"
    by (simp add: snd_mero_ai initial_state_def truthy_analysis set_item_analysis)
  have m: "mero_ai (analysis [JInt 1] [''go'']) initial_state = (Inr (FirstUser ''go''), ?s1)"
    by (simp add: initial_state_def mero_ai_def truthy_analysis set_item_analysis
        find_best_match_def respond_stored_None)
  have n: "FirstUser ''go'' \<noteq> Apology" by simp
  note th = ids_assigned_in_order [of ?rs "analysis [JInt 1] [''go'']" initial_state "FirstUser ''go''" ?s1]
  from th have d: "distinct (stored_ids (run ?rs initial_state))" by blast
  from th a have "stored_ids (run ?rs initial_state) = int_ids [1..USER_ID_COUNTER (run ?rs initial_state)]"
    by blast
  then have i: "stored_ids (run ?rs initial_state) = int_ids [1..2]" by (simp only: c)
  from th m n have e: "\<exists>p'. set_item (analysis [JInt 1] [''go'']) ''id'' (JInt (USER_ID_COUNTER initial_state + 1)) = Inr p' \<and>
         user_profiles_memory ?s1 = user_profiles_memory initial_state @ [p']"
    by blast
  from a c i d m n e show ?thesis by (intro conjI)
qed

end
